theory Spec2Isabelle
  imports Main
begin

section \<open>The document the two scripts work on\<close>

text \<open>
  Both scripts of the repository (\<^verbatim>\<open>static/js/admin.js\<close> and \<^verbatim>\<open>static/js/flash.js\<close>)
  act on the browser's document.  An element is a record of the properties the scripts
  read or write; the document is a store of elements, and a script's reference to an
  element is its index in the store.  The store lists the elements in tree order, which is
  the order in which \<^verbatim>\<open>querySelectorAll\<close> reports them; an element made by
  \<^verbatim>\<open>createElement\<close> is put at the end of the store.
\<close>

type_synonym node_id = nat

record element =
  tag :: string
  props :: "string \<rightharpoonup> string"
  classList :: "string list"
  style :: "string \<rightharpoonup> string"
  childNodes :: "node_id list"

record document =
  nodes :: "element list"
  body :: node_id

text \<open>
  A reference held by the document or by a script points into the store.  For
  \<^verbatim>\<open>document.body\<close> this is the invariant \<open>has_body\<close>: the pages these scripts are
  loaded in are HTML documents, which have a body once a user can act on them.
\<close>

definition has_body :: "document \<Rightarrow> bool" where
  "has_body d = (body d < length (nodes d))"

text \<open>A change of the element a reference points to.  The references the scripts hold come
  from \<^verbatim>\<open>querySelectorAll\<close>, \<^verbatim>\<open>createElement\<close> and \<^verbatim>\<open>document.body\<close>; a reference that
  points outside the store has no element to change, and the store stays as it is.\<close>

definition update_node :: "node_id \<Rightarrow> (element \<Rightarrow> element) \<Rightarrow> document \<Rightarrow> document" where
  "update_node n f d = d\<lparr>nodes := (nodes d)[n := f (nodes d ! n)]\<rparr>"

text \<open>\<^verbatim>\<open>document.createElement(t)\<close>: a new element with no property set and no child,
  attached nowhere; the result is the reference to it.\<close>

definition new_element :: "string \<Rightarrow> element" where
  "new_element t =
     \<lparr>tag = t, props = Map.empty, classList = [], style = Map.empty, childNodes = []\<rparr>"

definition createElement :: "string \<Rightarrow> document \<Rightarrow> node_id \<times> document" where
  "createElement t d = (length (nodes d), d\<lparr>nodes := nodes d @ [new_element t]\<rparr>)"

text \<open>An assignment \<^verbatim>\<open>el.name = value\<close> to a property of an element.\<close>

definition set_prop :: "node_id \<Rightarrow> string \<Rightarrow> string \<Rightarrow> document \<Rightarrow> document" where
  "set_prop n name v = update_node n (\<lambda>e. e\<lparr>props := (props e)(name \<mapsto> v)\<rparr>)"

text \<open>\<^verbatim>\<open>parent.appendChild(child)\<close> for a child that has no parent yet, which is the
  only use the scripts make of it: the child becomes the last child.\<close>

definition appendChild :: "node_id \<Rightarrow> node_id \<Rightarrow> document \<Rightarrow> document" where
  "appendChild parent child =
     update_node parent (\<lambda>e. e\<lparr>childNodes := childNodes e @ [child]\<rparr>)"

text \<open>\<^verbatim>\<open>el.classList.add(t)\<close>: the token list of classes holds a token once.\<close>

definition add_token :: "string \<Rightarrow> string list \<Rightarrow> string list" where
  "add_token t ts = (if t \<in> set ts then ts else ts @ [t])"

text \<open>\<^verbatim>\<open>document.querySelectorAll('.' + cls)\<close>: the elements whose class list holds
  \<open>cls\<close>, in tree order.\<close>

definition querySelectorAll :: "document \<Rightarrow> string \<Rightarrow> node_id list" where
  "querySelectorAll d cls =
     filter (\<lambda>n. cls \<in> set (classList (nodes d ! n))) [0..<length (nodes d)]"


section \<open>admin.js\<close>

text \<open>
  What the page does towards the outside is kept in a trace: every dialog shown by
  \<^verbatim>\<open>prompt\<close>, with the user's answer (\<open>None\<close> is JavaScript's null, the answer of a
  cancelled dialog), and every form handed to the browser by \<^verbatim>\<open>submit\<close>.
\<close>

datatype event = Prompt string "string option" | Submit node_id

record world =
  dom :: document
  trace :: "event list"

definition in_dom :: "(document \<Rightarrow> document) \<Rightarrow> world \<Rightarrow> world" where
  "in_dom f w = w\<lparr>dom := f (dom w)\<rparr>"

definition create :: "string \<Rightarrow> world \<Rightarrow> node_id \<times> world" where
  "create t w = (case createElement t (dom w) of (n, d) \<Rightarrow> (n, w\<lparr>dom := d\<rparr>))"

definition emit :: "event \<Rightarrow> world \<Rightarrow> world" where
  "emit ev w = w\<lparr>trace := trace w @ [ev]\<rparr>"

definition prompt_message :: "string \<Rightarrow> string" where
  "prompt_message username = ''Enter new password for '' @ username @ '':''"

definition reset_url :: "string \<Rightarrow> string" where
  "reset_url userId = ''/admin/reset_password/'' @ userId"

text \<open>
  \<^verbatim>\<open>resetPassword(userId, username)\<close>, statement by statement.  The two arguments are
  taken as the strings a template literal makes of them; \<open>prompt\<close> is the user, who
  answers the message shown.  The condition \<^verbatim>\<open>if(newPass)\<close> holds for a string that is
  not empty, and fails for null and for the empty string.
\<close>

definition resetPassword ::
  "(string \<Rightarrow> string option) \<Rightarrow> string \<Rightarrow> string \<Rightarrow> world \<Rightarrow> world" where
  "resetPassword prompt userId username w0 =
     (let newPass = prompt (prompt_message username);
          w1 = emit (Prompt (prompt_message username) newPass) w0
      in case newPass of
           None \<Rightarrow> w1
         | Some p \<Rightarrow>
             if p = [] then w1
             else
               (let (form, w2) = create ''form'' w1;
                    w3 = in_dom (set_prop form ''method'' ''POST'') w2;
                    w4 = in_dom (set_prop form ''action'' (reset_url userId)) w3;
                    (input, w5) = create ''input'' w4;
                    w6 = in_dom (set_prop input ''type'' ''hidden'') w5;
                    w7 = in_dom (set_prop input ''name'' ''new_password'') w6;
                    w8 = in_dom (set_prop input ''value'' p) w7;
                    w9 = in_dom (appendChild form input) w8;
                    w10 = in_dom (appendChild (body (dom w9)) form) w9
                in emit (Submit form) w10))"

text \<open>The events a call adds to the trace.\<close>

definition events_of_call :: "world \<Rightarrow> world \<Rightarrow> event list" where
  "events_of_call w w' = drop (length (trace w)) (trace w')"


section \<open>flash.js\<close>

text \<open>
  The script gives \<^verbatim>\<open>setTimeout\<close> two arrow functions per banner, each closed over the
  element \<^verbatim>\<open>flash\<close>: \<^verbatim>\<open>() => flash.classList.add('show')\<close> and
  \<^verbatim>\<open>() => flash.style.display = 'none'\<close>.
\<close>

datatype callback = AddShow node_id | HideDisplay node_id

fun run_callback :: "callback \<Rightarrow> document \<Rightarrow> document" where
  "run_callback (AddShow flash) d =
     update_node flash (\<lambda>e. e\<lparr>classList := add_token ''show'' (classList e)\<rparr>) d"
| "run_callback (HideDisplay flash) d =
     update_node flash (\<lambda>e. e\<lparr>style := (style e)(''display'' \<mapsto> ''none'')\<rparr>) d"

fun target :: "callback \<Rightarrow> node_id" where
  "target (AddShow flash) = flash"
| "target (HideDisplay flash) = flash"

text \<open>
  A timer is a callback with its delay in milliseconds; \<^verbatim>\<open>setTimeout(cb, ms)\<close> puts it
  behind the timers set before.  The handler runs when DOMContentLoaded is dispatched, so
  the delay of a timer it sets is the time from DOMContentLoaded to the callback.  A delay
  is the number the script passes, \<open>i * 100\<close> or 5000; the conversion of that number to
  a 32-bit integer inside the browser, which would only change a delay of more than
  \<open>2 ^ 31 - 1\<close> milliseconds (an index above 21 million), is not followed.
\<close>

type_synonym timer = "nat \<times> callback"

definition setTimeout :: "callback \<Rightarrow> nat \<Rightarrow> timer list \<Rightarrow> timer list" where
  "setTimeout cb ms q = q @ [(ms, cb)]"

text \<open>\<^verbatim>\<open>flashes.forEach((flash, i) => {...})\<close>, from index \<open>i\<close> on.\<close>

fun forEach :: "nat \<Rightarrow> node_id list \<Rightarrow> timer list \<Rightarrow> timer list" where
  "forEach i [] q = q"
| "forEach i (flash # rest) q =
     forEach (Suc i) rest
       (setTimeout (HideDisplay flash) 5000 (setTimeout (AddShow flash) (i * 100) q))"

text \<open>The handler of DOMContentLoaded; its result is the timers it has set, in the order
  it set them.\<close>

definition onDOMContentLoaded :: "document \<Rightarrow> timer list" where
  "onDOMContentLoaded d = (let flashes = querySelectorAll d ''alert'' in forEach 0 flashes [])"

text \<open>
  The browser runs the timers in the order of their delays, and timers of equal delay in
  the order they were set. \<open>state_after k q d\<close> is the document when the first \<open>k\<close>
  timers of \<open>q\<close> have run; with \<open>k\<close> the length of \<open>q\<close> or more, all have.
\<close>

definition firing_order :: "timer list \<Rightarrow> timer list" where
  "firing_order q = sort_key fst q"

definition state_after :: "nat \<Rightarrow> timer list \<Rightarrow> document \<Rightarrow> document" where
  "state_after k q d = fold run_callback (map snd (take k (firing_order q))) d"

text \<open>The delays with which a callback has been scheduled.\<close>

definition delays_of :: "callback \<Rightarrow> timer list \<Rightarrow> nat list" where
  "delays_of cb q = map fst (filter (\<lambda>t. snd t = cb) q)"

text \<open>What the two callbacks may change of an element \<open>e\<close>, whatever their number and
  order: the class \<^verbatim>\<open>show\<close> and the style property \<^verbatim>\<open>display\<close>.\<close>

definition shown_or_hidden :: "element \<Rightarrow> element \<Rightarrow> bool" where
  "shown_or_hidden e e' \<longleftrightarrow>
     tag e' = tag e \<and> props e' = props e \<and> childNodes e' = childNodes e
     \<and> (classList e' = classList e \<or> classList e' = add_token ''show'' (classList e))
     \<and> (style e' = style e \<or> style e' = (style e)(''display'' \<mapsto> ''none''))"


section \<open>Pages to run the scripts on\<close>

text \<open>An admin page: a body with one child, and nothing shown so far.\<close>

definition admin_page :: world where
  "admin_page =
     \<lparr>dom = \<lparr>nodes = [(new_element ''body'')\<lparr>childNodes := [1]\<rparr>, new_element ''table''],
              body = 0\<rparr>,
      trace = []\<rparr>"

text \<open>A page with two banners, the second of which has the class \<^verbatim>\<open>show\<close> already.\<close>

definition banner :: element where
  "banner = (new_element ''div'')\<lparr>classList := [''alert'', ''alert-success'']\<rparr>"

definition flash_page :: document where
  "flash_page =
     \<lparr>nodes = [(new_element ''body'')\<lparr>childNodes := [1, 2, 3]\<rparr>, banner, new_element ''p'',
               banner\<lparr>classList := [''alert'', ''show'']\<rparr>],
      body = 0\<rparr>"

text \<open>A page with 52 banners.\<close>

definition crowded_page :: document where
  "crowded_page =
     \<lparr>nodes = (new_element ''body'')\<lparr>childNodes := [1..<53]\<rparr> # replicate 52 banner, body = 0\<rparr>"


section \<open>What a call of resetPassword leaves behind\<close>

lemma resetPassword_falsy:
  assumes "prompt (prompt_message username) = r" "r = None \<or> r = Some []"
  shows "resetPassword prompt userId username w =
           w\<lparr>trace := trace w @ [Prompt (prompt_message username) r]\<rparr>"
  using assms by (auto simp add: resetPassword_def emit_def)

lemma resetPassword_nodes:
  assumes "prompt (prompt_message username) = Some p" "p \<noteq> []" "has_body (dom w)"
  shows "nodes (dom (resetPassword prompt userId username w)) =
    (nodes (dom w))[body (dom w) := (nodes (dom w) ! body (dom w))
         \<lparr>childNodes := childNodes (nodes (dom w) ! body (dom w)) @ [length (nodes (dom w))]\<rparr>]
     @ [\<lparr>tag = ''form'', props = [''method'' \<mapsto> ''POST'', ''action'' \<mapsto> reset_url userId],
          classList = [], style = Map.empty, childNodes = [Suc (length (nodes (dom w)))]\<rparr>,
        \<lparr>tag = ''input'',
          props = [''type'' \<mapsto> ''hidden'', ''name'' \<mapsto> ''new_password'', ''value'' \<mapsto> p],
          classList = [], style = Map.empty, childNodes = []\<rparr>]"
  using assms
  by (simp add: resetPassword_def emit_def create_def createElement_def in_dom_def set_prop_def
      update_node_def appendChild_def new_element_def has_body_def Let_def
      nth_append list_update_append)

lemma resetPassword_trace:
  assumes "prompt (prompt_message username) = Some p" "p \<noteq> []"
  shows "trace (resetPassword prompt userId username w) =
           trace w @ [Prompt (prompt_message username) (Some p), Submit (length (nodes (dom w)))]"
  using assms
  by (simp add: resetPassword_def emit_def create_def createElement_def in_dom_def Let_def)

lemma resetPassword_body:
  "body (dom (resetPassword prompt userId username w)) = body (dom w)"
  by (simp add: resetPassword_def emit_def create_def createElement_def in_dom_def set_prop_def
      update_node_def appendChild_def Let_def split: option.splits)

lemma resetPassword_has_body:
  "has_body (dom w) \<Longrightarrow> has_body (dom (resetPassword prompt userId username w))"
  by (simp add: resetPassword_def emit_def create_def createElement_def in_dom_def set_prop_def
      update_node_def appendChild_def has_body_def Let_def split: option.splits)

lemma resetPassword_events:
  "events_of_call w (resetPassword prompt userId username w) =
     (case prompt (prompt_message username) of
        None \<Rightarrow> [Prompt (prompt_message username) None]
      | Some p \<Rightarrow>
          if p = [] then [Prompt (prompt_message username) (Some p)]
          else [Prompt (prompt_message username) (Some p), Submit (length (nodes (dom w)))])"
proof (cases "prompt (prompt_message username)")
  case None
  then show ?thesis
    by (simp add: resetPassword_falsy [where r = None] events_of_call_def)
next
  case (Some p)
  show ?thesis
  proof (cases "p = []")
    case True
    with Some show ?thesis
      by (simp add: resetPassword_falsy [where r = "Some []"] events_of_call_def)
  next
    case False
    with Some show ?thesis
      by (simp add: resetPassword_trace events_of_call_def)
  qed
qed


section \<open>A password was entered\<close>

text \<open>
  C1.  When the dialog returns a string \<open>p\<close> that is not empty, the call creates a form
  element with method POST and the action \<^verbatim>\<open>/admin/reset_password/\<close> followed by
  \<open>userId\<close>, whose only child is a new input element of type hidden, named
  \<^verbatim>\<open>new_password\<close>, with value \<open>p\<close>; the form becomes the last child of the document's
  body, every other element of the document stays as it was, and the form is submitted
  right after the dialog.
\<close>

theorem resetPassword_builds_and_submits:
  assumes "prompt (prompt_message username) = Some p" and "p \<noteq> []" and "has_body (dom w)"
  shows "let w' = resetPassword prompt userId username w;
             ns = nodes (dom w');
             form = length (nodes (dom w));
             input = Suc form
         in length ns = form + 2
          \<and> tag (ns ! form) = ''form''
          \<and> props (ns ! form) =
              [''method'' \<mapsto> ''POST'', ''action'' \<mapsto> ''/admin/reset_password/'' @ userId]
          \<and> childNodes (ns ! form) = [input]
          \<and> tag (ns ! input) = ''input''
          \<and> props (ns ! input) =
              [''type'' \<mapsto> ''hidden'', ''name'' \<mapsto> ''new_password'', ''value'' \<mapsto> p]
          \<and> childNodes (ns ! input) = []
          \<and> body (dom w') = body (dom w)
          \<and> childNodes (ns ! body (dom w')) = childNodes (nodes (dom w) ! body (dom w)) @ [form]
          \<and> (\<forall>k < form. k \<noteq> body (dom w) \<longrightarrow> ns ! k = nodes (dom w) ! k)
          \<and> trace w' = trace w @ [Prompt (prompt_message username) (Some p), Submit form]"
  using assms(3)
  by (simp add: Let_def resetPassword_nodes [where prompt = prompt and p = p, OF assms]
      resetPassword_trace [where prompt = prompt and p = p, OF assms(1,2)]
      resetPassword_body has_body_def nth_append reset_url_def)

theorem resetPassword_builds_and_submits_witness:
  "has_body (dom admin_page) \<and>
   (let w' = resetPassword (\<lambda>_. Some ''s3cret'') ''7'' ''alice'' admin_page;
        ns = nodes (dom w')
    in length ns = 4
     \<and> tag (ns ! 2) = ''form''
     \<and> props (ns ! 2) = [''method'' \<mapsto> ''POST'', ''action'' \<mapsto> ''/admin/reset_password/7'']
     \<and> childNodes (ns ! 2) = [3]
     \<and> tag (ns ! 3) = ''input''
     \<and> props (ns ! 3) =
         [''type'' \<mapsto> ''hidden'', ''name'' \<mapsto> ''new_password'', ''value'' \<mapsto> ''s3cret'']
     \<and> childNodes (ns ! 0) = [1, 2]
     \<and> ns ! 1 = new_element ''table''
     \<and> trace w' = [Prompt ''Enter new password for alice:'' (Some ''s3cret''), Submit 2])"
  using resetPassword_builds_and_submits
    [where prompt = "\<lambda>_. Some ''s3cret''" and username = "''alice''" and p = "''s3cret''"
       and w = admin_page and userId = "''7''"]
  by (simp add: admin_page_def has_body_def prompt_message_def Let_def new_element_def
      resetPassword_body eval_nat_numeral)

text \<open>
  C9.  The action of the form that is submitted is the text \<^verbatim>\<open>/admin/reset_password/\<close>
  with \<open>userId\<close> appended as it is, for every \<open>userId\<close>: nothing is escaped or encoded, so
  a slash or a question mark in \<open>userId\<close> stands in the action unchanged.
\<close>

theorem resetPassword_action_verbatim:
  assumes "prompt (prompt_message username) = Some p" and "p \<noteq> []" and "has_body (dom w)"
  shows "\<exists>form. last (trace (resetPassword prompt userId username w)) = Submit form
          \<and> props (nodes (dom (resetPassword prompt userId username w)) ! form) ''action''
              = Some (''/admin/reset_password/'' @ userId)"
  using assms(3)
  by (simp add: resetPassword_nodes [where prompt = prompt and p = p, OF assms]
      resetPassword_trace [where prompt = prompt and p = p, OF assms(1,2)]
      has_body_def nth_append reset_url_def)

theorem resetPassword_action_verbatim_witness:
  "has_body (dom admin_page) \<and>
   (\<exists>form. last (trace (resetPassword (\<lambda>_. Some ''pw'') ''7/../8?x=1&y'' ''bob'' admin_page))
             = Submit form
      \<and> props (nodes (dom (resetPassword (\<lambda>_. Some ''pw'') ''7/../8?x=1&y'' ''bob'' admin_page))
                 ! form) ''action''
          = Some ''/admin/reset_password/7/../8?x=1&y'')"
  using resetPassword_action_verbatim
    [where prompt = "\<lambda>_. Some ''pw''" and username = "''bob''" and p = "''pw''"
       and w = admin_page and userId = "''7/../8?x=1&y''"]
  by (simp add: admin_page_def has_body_def)

text \<open>
  C3.  A form is submitted only after the dialog: among the events of any call, a
  submission is preceded by the dialog of this call, and that dialog returned a string
  (which was not empty).
\<close>

theorem submit_only_after_prompt:
  "let evs = events_of_call w (resetPassword prompt userId username w)
   in trace (resetPassword prompt userId username w) = trace w @ evs
    \<and> (\<forall>k < length evs. \<forall>form. evs ! k = Submit form \<longrightarrow>
         (\<exists>j < k. \<exists>p. evs ! j = Prompt (prompt_message username) (Some p)
                     \<and> prompt (prompt_message username) = Some p \<and> p \<noteq> []))"
proof (cases "prompt (prompt_message username)")
  case None
  then show ?thesis
    by (simp add: Let_def events_of_call_def resetPassword_falsy [where r = None])
next
  case (Some p)
  show ?thesis
  proof (cases "p = []")
    case True
    with Some show ?thesis
      by (simp add: Let_def events_of_call_def resetPassword_falsy [where r = "Some []"])
  next
    case False
    with Some show ?thesis
      by (auto simp add: Let_def events_of_call_def resetPassword_trace less_Suc_eq)
  qed
qed

theorem submit_only_after_prompt_witness:
  "events_of_call admin_page (resetPassword (\<lambda>_. Some ''s3cret'') ''7'' ''alice'' admin_page) ! 1
     = Submit 2
   \<and> (\<exists>j < 1. \<exists>p.
         events_of_call admin_page (resetPassword (\<lambda>_. Some ''s3cret'') ''7'' ''alice'' admin_page) ! j
           = Prompt (prompt_message ''alice'') (Some p) \<and> p \<noteq> [])"
  using submit_only_after_prompt
    [where prompt = "\<lambda>_. Some ''s3cret''" and username = "''alice''" and w = admin_page
       and userId = "''7''"]
  by (simp add: Let_def resetPassword_events admin_page_def eval_nat_numeral)


section \<open>Cancelling the dialog\<close>

text \<open>
  C2.  When the user cancels the dialog (\<^verbatim>\<open>prompt\<close> returns null), the call returns
  with the document exactly as it was: no element has been created, none appended, and
  the trace has gained the dialog only, so no form has been submitted.
\<close>

theorem resetPassword_cancel:
  assumes "prompt (prompt_message username) = None"
  shows "resetPassword prompt userId username w =
           w\<lparr>trace := trace w @ [Prompt (prompt_message username) None]\<rparr>"
  using assms by (simp add: resetPassword_def emit_def)

theorem resetPassword_cancel_witness:
  "resetPassword (\<lambda>_. None) ''7'' ''alice'' admin_page =
     admin_page\<lparr>trace := [Prompt ''Enter new password for alice:'' None]\<rparr>"
  using resetPassword_cancel
    [where prompt = "\<lambda>_. None" and username = "''alice''" and w = admin_page and userId = "''7''"]
  by (simp add: admin_page_def prompt_message_def)

text \<open>
  C8.  When the dialog returns the empty string, the guard fails as it does for null: the
  call returns with the document as it was, it creates and submits no form, and it leaves
  the document the call with a cancelled dialog leaves.
\<close>

theorem resetPassword_empty:
  assumes "prompt (prompt_message username) = Some []"
  shows "resetPassword prompt userId username w =
           w\<lparr>trace := trace w @ [Prompt (prompt_message username) (Some [])]\<rparr>
       \<and> dom (resetPassword prompt userId username w) =
           dom (resetPassword (\<lambda>_. None) userId username w)
       \<and> events_of_call w (resetPassword prompt userId username w) =
           [Prompt (prompt_message username) (Some [])]"
  using assms
  by (simp add: resetPassword_falsy [where r = "Some []"] resetPassword_falsy [where r = None]
      events_of_call_def)

theorem resetPassword_empty_witness:
  "resetPassword (\<lambda>_. Some []) ''7'' ''alice'' admin_page =
     admin_page\<lparr>trace := [Prompt ''Enter new password for alice:'' (Some [])]\<rparr>
   \<and> dom (resetPassword (\<lambda>_. Some []) ''7'' ''alice'' admin_page) = dom admin_page"
  using resetPassword_empty
    [where prompt = "\<lambda>_. Some []" and username = "''alice''" and w = admin_page
       and userId = "''7''"]
    resetPassword_falsy [where prompt = "\<lambda>_. None" and r = None and username = "''alice''"
       and w = admin_page and userId = "''7''"]
  by (simp add: admin_page_def prompt_message_def)


section \<open>The timers the flash script sets\<close>

lemma delays_of_append [simp]: "delays_of cb (q @ q') = delays_of cb q @ delays_of cb q'"
  by (simp add: delays_of_def)

lemma length_forEach: "length (forEach i fl q) = length q + 2 * length fl"
  by (induction fl arbitrary: i q) (simp_all add: setTimeout_def)

lemma forEach_prefix: "n < length q \<Longrightarrow> forEach i fl q ! n = q ! n"
  by (induction fl arbitrary: i q) (simp_all add: setTimeout_def nth_append)

lemma forEach_nth_reveal:
  "j < length fl \<Longrightarrow> forEach i fl q ! (length q + 2 * j) = ((i + j) * 100, AddShow (fl ! j))"
proof (induction fl arbitrary: i q j)
  case Nil
  then show ?case by simp
next
  case (Cons f rest)
  show ?case
  proof (cases j)
    case 0
    then show ?thesis by (simp add: forEach_prefix setTimeout_def nth_append)
  next
    case (Suc j')
    with Cons.prems have "j' < length rest" by simp
    from Cons.IH [OF this, of "Suc i" "setTimeout (HideDisplay f) 5000 (setTimeout (AddShow f) (i * 100) q)"]
    show ?thesis using Suc by (simp add: setTimeout_def)
  qed
qed

lemma forEach_nth_hide:
  "j < length fl \<Longrightarrow> forEach i fl q ! (length q + 2 * j + 1) = (5000, HideDisplay (fl ! j))"
proof (induction fl arbitrary: i q j)
  case Nil
  then show ?case by simp
next
  case (Cons f rest)
  show ?case
  proof (cases j)
    case 0
    then show ?thesis by (simp add: forEach_prefix setTimeout_def nth_append)
  next
    case (Suc j')
    with Cons.prems have "j' < length rest" by simp
    from Cons.IH [OF this, of "Suc i" "setTimeout (HideDisplay f) 5000 (setTimeout (AddShow f) (i * 100) q)"]
    show ?thesis using Suc by (simp add: setTimeout_def)
  qed
qed

lemma delays_of_forEach_other:
  "e \<notin> set fl \<Longrightarrow> delays_of (AddShow e) (forEach i fl q) = delays_of (AddShow e) q"
  "e \<notin> set fl \<Longrightarrow> delays_of (HideDisplay e) (forEach i fl q) = delays_of (HideDisplay e) q"
  by (induction fl arbitrary: i q) (auto simp add: setTimeout_def delays_of_def)

lemma delays_of_forEach_reveal:
  "distinct fl \<Longrightarrow> j < length fl \<Longrightarrow>
   delays_of (AddShow (fl ! j)) (forEach i fl q) = delays_of (AddShow (fl ! j)) q @ [(i + j) * 100]"
proof (induction fl arbitrary: i q j)
  case Nil
  then show ?case by simp
next
  case (Cons f rest)
  show ?case
  proof (cases j)
    case 0
    with Cons.prems show ?thesis
      by (simp add: delays_of_forEach_other setTimeout_def) (simp add: delays_of_def)
  next
    case (Suc j')
    with Cons.prems have j': "j' < length rest" and d: "distinct rest" and ne: "rest ! j' \<noteq> f"
      by auto
    from Cons.IH [OF d j'] ne show ?thesis using Suc
      by (simp add: setTimeout_def) (simp add: delays_of_def)
  qed
qed

lemma delays_of_forEach_hide:
  "distinct fl \<Longrightarrow> j < length fl \<Longrightarrow>
   delays_of (HideDisplay (fl ! j)) (forEach i fl q) = delays_of (HideDisplay (fl ! j)) q @ [5000]"
proof (induction fl arbitrary: i q j)
  case Nil
  then show ?case by simp
next
  case (Cons f rest)
  show ?case
  proof (cases j)
    case 0
    with Cons.prems show ?thesis
      by (simp add: delays_of_forEach_other setTimeout_def) (simp add: delays_of_def)
  next
    case (Suc j')
    with Cons.prems have j': "j' < length rest" and d: "distinct rest" and ne: "rest ! j' \<noteq> f"
      by auto
    from Cons.IH [OF d j'] ne show ?thesis using Suc
      by (simp add: setTimeout_def) (simp add: delays_of_def)
  qed
qed

lemma distinct_querySelectorAll: "distinct (querySelectorAll d c)"
  by (simp add: querySelectorAll_def)

lemma querySelectorAll_iff:
  "n \<in> set (querySelectorAll d c) \<longleftrightarrow> n < length (nodes d) \<and> c \<in> set (classList (nodes d ! n))"
  by (auto simp add: querySelectorAll_def)


lemma nodes_update_node:
  "nodes (update_node n f d) = (nodes d)[n := f (nodes d ! n)]"
  by (simp add: update_node_def)

lemma body_update_node: "body (update_node n f d) = body d"
  by (simp add: update_node_def)

lemma length_nodes_run_callback: "length (nodes (run_callback cb d)) = length (nodes d)"
  by (cases cb) (simp_all add: nodes_update_node)

lemma length_nodes_fold: "length (nodes (fold run_callback cbs d)) = length (nodes d)"
  by (induction cbs arbitrary: d) (simp_all add: length_nodes_run_callback)

lemma body_fold: "body (fold run_callback cbs d) = body d"
proof (induction cbs arbitrary: d)
  case Nil
  show ?case by simp
next
  case (Cons cb cbs)
  have "body (run_callback cb d) = body d"
    by (cases cb) (simp_all add: body_update_node)
  with Cons show ?case by simp
qed

lemma run_callback_other:
  "n \<noteq> target cb \<Longrightarrow> nodes (run_callback cb d) ! n = nodes d ! n"
  by (cases cb) (simp_all add: nodes_update_node)

lemma fold_other:
  "n \<notin> target ` set cbs \<Longrightarrow> nodes (fold run_callback cbs d) ! n = nodes d ! n"
  by (induction cbs arbitrary: d) (simp_all add: run_callback_other)

lemma add_token_idem: "add_token t (add_token t ts) = add_token t ts"
  by (simp add: add_token_def)

lemma run_callback_shown_or_hidden:
  assumes "shown_or_hidden e (nodes d ! n)"
  shows "shown_or_hidden e (nodes (run_callback cb d) ! n)"
proof (cases "n = target cb \<and> n < length (nodes d)")
  case False
  then have "nodes (run_callback cb d) ! n = nodes d ! n"
    by (cases cb) (auto simp add: nodes_update_node list_update_beyond)
  with assms show ?thesis by simp
next
  case True
  with assms show ?thesis
    by (cases cb) (auto simp add: nodes_update_node shown_or_hidden_def add_token_idem)
qed

lemma fold_shown_or_hidden:
  "shown_or_hidden e (nodes d ! n) \<Longrightarrow> shown_or_hidden e (nodes (fold run_callback cbs d) ! n)"
  by (induction cbs arbitrary: d) (simp_all add: run_callback_shown_or_hidden)

lemma target_forEach:
  "target ` snd ` set (forEach i fl q) = target ` snd ` set q \<union> set fl"
  by (induction fl arbitrary: i q) (auto simp add: setTimeout_def)

lemma display_none_run_callback:
  "style (nodes d ! e) ''display'' = Some ''none'' \<Longrightarrow>
   style (nodes (run_callback cb d) ! e) ''display'' = Some ''none''"
proof (cases "e = target cb \<and> e < length (nodes d)")
  case False
  assume "style (nodes d ! e) ''display'' = Some ''none''"
  moreover from False have "nodes (run_callback cb d) ! e = nodes d ! e"
    by (cases cb) (auto simp add: nodes_update_node list_update_beyond)
  ultimately show ?thesis by simp
next
  case True
  assume "style (nodes d ! e) ''display'' = Some ''none''"
  with True show ?thesis
    by (cases cb) (auto simp add: nodes_update_node)
qed

lemma display_none_fold:
  "style (nodes d ! e) ''display'' = Some ''none'' \<Longrightarrow>
   style (nodes (fold run_callback cbs d) ! e) ''display'' = Some ''none''"
  by (induction cbs arbitrary: d) (simp_all add: display_none_run_callback)

lemma hide_sets_display:
  "e < length (nodes d) \<Longrightarrow>
   style (nodes (run_callback (HideDisplay e) d) ! e) ''display'' = Some ''none''"
  by (simp add: nodes_update_node)

lemma state_after_hidden:
  assumes h: "h < length (firing_order q)" "firing_order q ! h = (t, HideDisplay e)"
    and e: "e < length (nodes d)" and k: "h < k"
  shows "style (nodes (state_after k q d) ! e) ''display'' = Some ''none''"
proof -
  let ?fo = "take k (firing_order q)"
  from h k have hk: "h < length ?fo" by simp
  then have split: "?fo = take h ?fo @ ?fo ! h # drop (Suc h) ?fo"
    by (rule id_take_nth_drop)
  from k h have nth: "?fo ! h = (t, HideDisplay e)" by simp
  let ?d1 = "fold run_callback (map snd (take h ?fo)) d"
  have "e < length (nodes ?d1)" using e by (simp add: length_nodes_fold)
  then have "style (nodes (run_callback (HideDisplay e) ?d1) ! e) ''display'' = Some ''none''"
    by (rule hide_sets_display)
  then have "style (nodes (fold run_callback (map snd (drop (Suc h) ?fo))
                 (run_callback (HideDisplay e) ?d1)) ! e) ''display'' = Some ''none''"
    by (rule display_none_fold)
  moreover have "state_after k q d =
      fold run_callback (map snd (drop (Suc h) ?fo)) (run_callback (HideDisplay e) ?d1)"
    unfolding state_after_def by (subst split) (simp add: nth)
  ultimately show ?thesis by simp
qed

lemma firing_order_sorted: "sorted (map fst (firing_order q))"
  by (simp add: firing_order_def)

lemma firing_order_stable:
  "filter (\<lambda>t. fst t = ms) (firing_order q) = filter (\<lambda>t. fst t = ms) q"
  by (simp add: firing_order_def sort_key_stable)

lemma firing_order_before:
  assumes a: "(ta, a) \<in> set q" and b: "(tb, b) \<in> set q" and lt: "ta < tb"
  shows "\<exists>h r. h < r \<and> r < length (firing_order q)
           \<and> firing_order q ! h = (ta, a) \<and> firing_order q ! r = (tb, b)"
proof -
  let ?fo = "firing_order q"
  have s: "sorted (map fst ?fo)" by (rule firing_order_sorted)
  from a have "(ta, a) \<in> set ?fo" by (simp add: firing_order_def)
  then obtain h where h: "h < length ?fo" "?fo ! h = (ta, a)"
    by (auto simp add: in_set_conv_nth)
  from b have "(tb, b) \<in> set ?fo" by (simp add: firing_order_def)
  then obtain r where r: "r < length ?fo" "?fo ! r = (tb, b)"
    by (auto simp add: in_set_conv_nth)
  have "h < r"
  proof (rule ccontr)
    assume "\<not> h < r"
    then have "r \<le> h" by simp
    with h(1) have "map fst ?fo ! r \<le> map fst ?fo ! h"
      by (intro sorted_nth_mono [OF s]) simp_all
    with \<open>r \<le> h\<close> h r lt show False by simp
  qed
  with h r show ?thesis by blast
qed


lemma in_onDOMContentLoaded:
  assumes "i < length (querySelectorAll d ''alert'')"
  shows "onDOMContentLoaded d ! (2 * i) = (i * 100, AddShow (querySelectorAll d ''alert'' ! i))"
    and "onDOMContentLoaded d ! (2 * i + 1) = (5000, HideDisplay (querySelectorAll d ''alert'' ! i))"
    and "2 * i + 1 < length (onDOMContentLoaded d)"
  using assms forEach_nth_reveal [of i "querySelectorAll d ''alert''" 0 "[]"]
    forEach_nth_hide [of i "querySelectorAll d ''alert''" 0 "[]"]
  by (simp_all add: onDOMContentLoaded_def length_forEach)


lemma reveal_delay:
  assumes "i < length (querySelectorAll d ''alert'')"
  shows "delays_of (AddShow (querySelectorAll d ''alert'' ! i)) (onDOMContentLoaded d) = [i * 100]"
  using delays_of_forEach_reveal [OF distinct_querySelectorAll assms, of 0 "[]"]
  by (simp add: onDOMContentLoaded_def delays_of_def)

lemma hide_delay:
  assumes "i < length (querySelectorAll d ''alert'')"
  shows "delays_of (HideDisplay (querySelectorAll d ''alert'' ! i)) (onDOMContentLoaded d) = [5000]"
  using delays_of_forEach_hide [OF distinct_querySelectorAll assms, of 0 "[]"]
  by (simp add: onDOMContentLoaded_def delays_of_def)

lemma flash_in_document:
  "i < length (querySelectorAll d c) \<Longrightarrow> querySelectorAll d c ! i < length (nodes d)"
  using querySelectorAll_iff [of "querySelectorAll d c ! i" d c] by simp


section \<open>The two example pages\<close>

lemma flash_page_alerts: "querySelectorAll flash_page ''alert'' = [1, 3]"
  by code_simp

lemma flash_page_timers:
  "onDOMContentLoaded flash_page =
     [(0, AddShow 1), (5000, HideDisplay 1), (100, AddShow 3), (5000, HideDisplay 3)]"
  by (simp add: onDOMContentLoaded_def flash_page_alerts setTimeout_def)

lemma flash_page_firing_order:
  "firing_order (onDOMContentLoaded flash_page) =
     [(0, AddShow 1), (100, AddShow 3), (5000, HideDisplay 1), (5000, HideDisplay 3)]"
  by (simp add: flash_page_timers firing_order_def)

lemma crowded_page_alerts: "querySelectorAll crowded_page ''alert'' = [1..<53]"
proof -
  have "filter (\<lambda>n. ''alert'' \<in> set (classList (nodes crowded_page ! n))) [1..<53] = [1..<53]"
    by (rule filter_True) (auto simp add: crowded_page_def banner_def nth_Cons')
  moreover have "[0..<53] = 0 # [1..<53]"
    by (simp add: upt_conv_Cons)
  ultimately show ?thesis
    by (simp add: querySelectorAll_def) (simp add: crowded_page_def new_element_def)
qed


section \<open>When the banners are revealed and hidden\<close>

text \<open>
  C4.  For the element at index \<open>i\<close> of the list that \<^verbatim>\<open>querySelectorAll('.alert')\<close>
  returns, the handler sets one timer that adds the class \<^verbatim>\<open>show\<close> to it, and the delay
  of that timer is \<open>i * 100\<close> milliseconds: the reveals are staggered by the index.
\<close>

theorem reveal_staggered:
  assumes "i < length (querySelectorAll d ''alert'')"
  shows "let flash = querySelectorAll d ''alert'' ! i
         in onDOMContentLoaded d ! (2 * i) = (i * 100, AddShow flash)
          \<and> delays_of (AddShow flash) (onDOMContentLoaded d) = [i * 100]
          \<and> ''show'' \<in> set (classList (nodes (run_callback (AddShow flash) d) ! flash))"
proof -
  let ?flash = "querySelectorAll d ''alert'' ! i"
  from assms have "?flash < length (nodes d)" by (rule flash_in_document)
  then have "''show'' \<in> set (classList (nodes (run_callback (AddShow ?flash) d) ! ?flash))"
    by (simp add: nodes_update_node add_token_def)
  then show ?thesis
    using in_onDOMContentLoaded(1) [OF assms] reveal_delay [OF assms] by (simp add: Let_def)
qed

theorem reveal_staggered_witness:
  "1 < length (querySelectorAll flash_page ''alert'')
   \<and> querySelectorAll flash_page ''alert'' ! 1 = 3
   \<and> onDOMContentLoaded flash_page ! 2 = (100, AddShow 3)
   \<and> delays_of (AddShow 3) (onDOMContentLoaded flash_page) = [100]"
  using reveal_staggered [of 1 flash_page] by (simp add: flash_page_alerts Let_def)

text \<open>
  C5.  For every element of that list, whatever its index, the handler sets one timer that
  sets the style property \<^verbatim>\<open>display\<close> of the element to \<^verbatim>\<open>none\<close>, and the delay of that
  timer is 5000 milliseconds.
\<close>

theorem hide_fixed:
  assumes "i < length (querySelectorAll d ''alert'')"
  shows "let flash = querySelectorAll d ''alert'' ! i
         in onDOMContentLoaded d ! (2 * i + 1) = (5000, HideDisplay flash)
          \<and> delays_of (HideDisplay flash) (onDOMContentLoaded d) = [5000]
          \<and> style (nodes (run_callback (HideDisplay flash) d) ! flash) ''display'' = Some ''none''"
proof -
  let ?flash = "querySelectorAll d ''alert'' ! i"
  from assms have "?flash < length (nodes d)" by (rule flash_in_document)
  then have "style (nodes (run_callback (HideDisplay ?flash) d) ! ?flash) ''display'' = Some ''none''"
    by (rule hide_sets_display)
  then show ?thesis
    using in_onDOMContentLoaded(2) [OF assms] hide_delay [OF assms] by (simp add: Let_def)
qed

theorem hide_fixed_witness:
  "1 < length (querySelectorAll flash_page ''alert'')
   \<and> querySelectorAll flash_page ''alert'' ! 1 = 3
   \<and> onDOMContentLoaded flash_page ! 3 = (5000, HideDisplay 3)
   \<and> delays_of (HideDisplay 3) (onDOMContentLoaded flash_page) = [5000]"
  using hide_fixed [of 1 flash_page] by (simp add: flash_page_alerts Let_def)

text \<open>
  C6, as the specification has it: the delay from DOMContentLoaded to the addition of
  \<^verbatim>\<open>show\<close> is one fixed value for all banners.  On the page with two banners the two
  delays are 0 and 100 milliseconds.
\<close>

theorem reveal_delay_not_fixed:
  "querySelectorAll flash_page ''alert'' = [1, 3]
   \<and> delays_of (AddShow 1) (onDOMContentLoaded flash_page) = [0]
   \<and> delays_of (AddShow 3) (onDOMContentLoaded flash_page) = [100]
   \<and> delays_of (AddShow 1) (onDOMContentLoaded flash_page)
       \<noteq> delays_of (AddShow 3) (onDOMContentLoaded flash_page)"
  by (simp add: flash_page_alerts flash_page_timers delays_of_def)

text \<open>
  C6, amended: the delay from DOMContentLoaded to the addition of \<^verbatim>\<open>show\<close> depends on
  the index of the banner.  For the banners at the indexes \<open>i\<close> and \<open>j\<close> it is \<open>i * 100\<close>
  and \<open>j * 100\<close> milliseconds, and the two delays are equal only when \<open>i = j\<close>.
\<close>

theorem reveal_delay_by_index:
  assumes "i < length (querySelectorAll d ''alert'')" and "j < length (querySelectorAll d ''alert'')"
  shows "let flashes = querySelectorAll d ''alert''; q = onDOMContentLoaded d
         in delays_of (AddShow (flashes ! i)) q = [i * 100]
          \<and> delays_of (AddShow (flashes ! j)) q = [j * 100]
          \<and> (delays_of (AddShow (flashes ! i)) q = delays_of (AddShow (flashes ! j)) q
               \<longleftrightarrow> i = j)"
  by (simp add: Let_def reveal_delay [OF assms(1)] reveal_delay [OF assms(2)])

theorem reveal_delay_by_index_witness:
  "0 < length (querySelectorAll flash_page ''alert'')
   \<and> 1 < length (querySelectorAll flash_page ''alert'')
   \<and> delays_of (AddShow (querySelectorAll flash_page ''alert'' ! 0)) (onDOMContentLoaded flash_page)
       = [0]
   \<and> delays_of (AddShow (querySelectorAll flash_page ''alert'' ! 1)) (onDOMContentLoaded flash_page)
       = [100]"
  using reveal_delay_by_index [of 0 flash_page 1] by (simp add: flash_page_alerts Let_def)

text \<open>
  C10.  For a banner at an index \<open>i\<close> with \<open>i * 100 > 5000\<close>, the timer that hides it
  (delay 5000) runs strictly before the timer that adds \<^verbatim>\<open>show\<close> to it (delay
  \<open>i * 100\<close>).  From the moment the first has run the style property \<^verbatim>\<open>display\<close> of the
  banner is \<^verbatim>\<open>none\<close>: it is so when \<^verbatim>\<open>show\<close> is added and at every later moment, so the
  banner is never shown.
\<close>

theorem late_reveal_after_hide:
  assumes i: "i < length (querySelectorAll d ''alert'')" and late: "5000 < i * 100"
  shows "let flash = querySelectorAll d ''alert'' ! i;
             q = onDOMContentLoaded d
         in \<exists>h r. h < r \<and> r < length (firing_order q)
              \<and> firing_order q ! h = (5000, HideDisplay flash)
              \<and> firing_order q ! r = (i * 100, AddShow flash)
              \<and> (\<forall>k. h < k \<longrightarrow>
                    style (nodes (state_after k q d) ! flash) ''display'' = Some ''none'')"
proof -
  let ?flash = "querySelectorAll d ''alert'' ! i"
  let ?q = "onDOMContentLoaded d"
  from i have e: "?flash < length (nodes d)" by (rule flash_in_document)
  from in_onDOMContentLoaded [OF i]
  have "(5000, HideDisplay ?flash) \<in> set ?q" and "(i * 100, AddShow ?flash) \<in> set ?q"
    by (metis nth_mem, metis nth_mem add_lessD1)
  from firing_order_before [OF this late]
  obtain h r where hr: "h < r" "r < length (firing_order ?q)"
    "firing_order ?q ! h = (5000, HideDisplay ?flash)"
    "firing_order ?q ! r = (i * 100, AddShow ?flash)"
    by blast
  then have "h < length (firing_order ?q)" by simp
  from state_after_hidden [OF this hr(3) e]
  have "\<forall>k. h < k \<longrightarrow> style (nodes (state_after k ?q d) ! ?flash) ''display'' = Some ''none''"
    by blast
  with hr show ?thesis unfolding Let_def by blast
qed

theorem late_reveal_after_hide_witness:
  "51 < length (querySelectorAll crowded_page ''alert'') \<and> (5000::nat) < 51 * 100
   \<and> (\<exists>h r. h < r \<and> r < length (firing_order (onDOMContentLoaded crowded_page))
         \<and> firing_order (onDOMContentLoaded crowded_page) ! h = (5000, HideDisplay 52)
         \<and> firing_order (onDOMContentLoaded crowded_page) ! r = (5100, AddShow 52)
         \<and> (\<forall>k. h < k \<longrightarrow>
               style (nodes (state_after k (onDOMContentLoaded crowded_page) crowded_page) ! 52)
                 ''display'' = Some ''none''))"
  using late_reveal_after_hide [of 51 crowded_page]
  by (simp add: crowded_page_alerts Let_def)


section \<open>What the flash script leaves untouched\<close>

text \<open>
  C7.  At every moment (after any number \<open>k\<close> of the timers has run) the document has the
  elements it had, an element without the class \<^verbatim>\<open>alert\<close> is as it was, and an element
  with the class \<^verbatim>\<open>alert\<close> differs from what it was at most in its class list, to which
  \<^verbatim>\<open>show\<close> may have been added, and in its style, in which \<^verbatim>\<open>display\<close> may have been
  set to \<^verbatim>\<open>none\<close>.
\<close>

theorem flash_frame:
  "let d' = state_after k (onDOMContentLoaded d) d
   in length (nodes d') = length (nodes d) \<and> body d' = body d
    \<and> (\<forall>n < length (nodes d).
         (''alert'' \<notin> set (classList (nodes d ! n)) \<longrightarrow> nodes d' ! n = nodes d ! n)
       \<and> (''alert'' \<in> set (classList (nodes d ! n)) \<longrightarrow>
            tag (nodes d' ! n) = tag (nodes d ! n)
          \<and> props (nodes d' ! n) = props (nodes d ! n)
          \<and> childNodes (nodes d' ! n) = childNodes (nodes d ! n)
          \<and> (classList (nodes d' ! n) = classList (nodes d ! n)
             \<or> classList (nodes d' ! n) = add_token ''show'' (classList (nodes d ! n)))
          \<and> (style (nodes d' ! n) = style (nodes d ! n)
             \<or> style (nodes d' ! n) = (style (nodes d ! n))(''display'' \<mapsto> ''none''))))"
proof -
  let ?cbs = "map snd (take k (firing_order (onDOMContentLoaded d)))"
  have targets: "target ` set ?cbs \<subseteq> set (querySelectorAll d ''alert'')"
  proof -
    have "set ?cbs \<subseteq> snd ` set (onDOMContentLoaded d)"
      using set_take_subset [of k "firing_order (onDOMContentLoaded d)"]
      by (auto simp add: firing_order_def)
    then have "target ` set ?cbs \<subseteq> target ` snd ` set (onDOMContentLoaded d)"
      by blast
    then show ?thesis
      by (simp add: onDOMContentLoaded_def target_forEach)
  qed
  have other: "nodes (fold run_callback ?cbs d) ! n = nodes d ! n"
    if "n < length (nodes d)" "''alert'' \<notin> set (classList (nodes d ! n))" for n
  proof -
    from that have "n \<notin> set (querySelectorAll d ''alert'')"
      by (simp add: querySelectorAll_iff)
    with targets have "n \<notin> target ` set ?cbs" by blast
    then show ?thesis by (rule fold_other)
  qed
  have touched: "shown_or_hidden (nodes d ! n) (nodes (fold run_callback ?cbs d) ! n)" for n
    by (rule fold_shown_or_hidden) (simp add: shown_or_hidden_def)
  show ?thesis
    unfolding Let_def state_after_def
    using other touched
    by (simp add: length_nodes_fold body_fold shown_or_hidden_def)
qed

theorem flash_frame_witness:
  "2 < length (nodes flash_page) \<and> ''alert'' \<notin> set (classList (nodes flash_page ! 2))
   \<and> nodes (state_after 4 (onDOMContentLoaded flash_page) flash_page) ! 2 = new_element ''p''
   \<and> 1 < length (nodes flash_page) \<and> ''alert'' \<in> set (classList (nodes flash_page ! 1))
   \<and> tag (nodes (state_after 4 (onDOMContentLoaded flash_page) flash_page) ! 1) = ''div''
   \<and> props (nodes (state_after 4 (onDOMContentLoaded flash_page) flash_page) ! 1) = Map.empty
   \<and> childNodes (nodes (state_after 4 (onDOMContentLoaded flash_page) flash_page) ! 1) = []"
proof -
  note frame = flash_frame [of 4 flash_page, unfolded Let_def, THEN conjunct2, THEN conjunct2]
  have n2: "2 < length (nodes flash_page)" "''alert'' \<notin> set (classList (nodes flash_page ! 2))"
    by (simp_all add: flash_page_def new_element_def)
  have n1: "1 < length (nodes flash_page)" "''alert'' \<in> set (classList (nodes flash_page ! 1))"
    by (simp_all add: flash_page_def banner_def new_element_def)
  from frame n2 have "nodes (state_after 4 (onDOMContentLoaded flash_page) flash_page) ! 2
      = nodes flash_page ! 2"
    by blast
  moreover from frame n1 have
    "tag (nodes (state_after 4 (onDOMContentLoaded flash_page) flash_page) ! 1)
       = tag (nodes flash_page ! 1)
     \<and> props (nodes (state_after 4 (onDOMContentLoaded flash_page) flash_page) ! 1)
       = props (nodes flash_page ! 1)
     \<and> childNodes (nodes (state_after 4 (onDOMContentLoaded flash_page) flash_page) ! 1)
       = childNodes (nodes flash_page ! 1)"
    by blast
  ultimately show ?thesis
    using n1 n2 by (simp add: flash_page_def banner_def new_element_def)
qed

end
